theory Spec2Isabelle
  imports Main "HOL-Library.FSet"
begin

section \<open>Strings as the scraper uses them\<close>

text \<open>
  Python strings are modelled as \<^typ>\<open>string\<close>. The character classes below are the
  ASCII part of Python's \<^verbatim>\<open>str.isspace\<close>, \<^verbatim>\<open>str.lower\<close> and of the regular
  expression classes \<^verbatim>\<open>\s\<close>, \<^verbatim>\<open>\d\<close> and \<^verbatim>\<open>\w\<close>; a character outside ASCII is
  taken as neither white space, nor a digit, nor a cased letter, nor a word character.
\<close>

definition is_space :: "char \<Rightarrow> bool" where
  "is_space c = (c \<in> set [CHR 0x09, CHR 0x0A, CHR 0x0B, CHR 0x0C, CHR 0x0D,
                            CHR 0x1C, CHR 0x1D, CHR 0x1E, CHR 0x1F, CHR '' ''])"

definition is_digit :: "char \<Rightarrow> bool" where
  "is_digit c = (c \<in> set ''0123456789'')"

definition upper_letters :: string where
  "upper_letters = ''ABCDEFGHIJKLMNOPQRSTUVWXYZ''"

definition lower_letters :: string where
  "lower_letters = ''abcdefghijklmnopqrstuvwxyz''"

definition is_word :: "char \<Rightarrow> bool" where
  "is_word c = (is_digit c \<or> c \<in> set upper_letters \<or> c \<in> set lower_letters \<or> c = CHR ''_'')"

definition lower_char :: "char \<Rightarrow> char" where
  "lower_char c = (case map_of (zip upper_letters lower_letters) c of Some l \<Rightarrow> l | None \<Rightarrow> c)"

text \<open>\<^verbatim>\<open>s.lower()\<close>\<close>

definition lower :: "string \<Rightarrow> string" where
  "lower s = map lower_char s"

text \<open>\<^verbatim>\<open>s.strip()\<close>\<close>

definition strip :: "string \<Rightarrow> string" where
  "strip s = rev (dropWhile is_space (rev (dropWhile is_space s)))"

text \<open>
  \<^verbatim>\<open>s.split()\<close>: the maximal runs of characters that are not white space. The first
  argument is the word read so far.
\<close>

fun split_from :: "string \<Rightarrow> string \<Rightarrow> string list" where
  "split_from cur [] = (if cur = [] then [] else [cur])"
| "split_from cur (c # cs) =
     (if is_space c then (if cur = [] then split_from [] cs else cur # split_from [] cs)
      else split_from (cur @ [c]) cs)"

definition split :: "string \<Rightarrow> string list" where
  "split s = split_from [] s"

text \<open>\<^verbatim>\<open>sep.join(parts)\<close>\<close>

fun join :: "string \<Rightarrow> string list \<Rightarrow> string" where
  "join sep [] = []"
| "join sep [p] = p"
| "join sep (p # q # ps) = p @ sep @ join sep (q # ps)"

text \<open>\<^verbatim>\<open>norm(s) = " ".join((s or "").split()).strip()\<close>\<close>

definition norm :: "string \<Rightarrow> string" where
  "norm s = strip (join '' '' (split s))"

text \<open>\<^verbatim>\<open>d.get(k, default)\<close> on a dictionary with string values.\<close>

definition get_or :: "('k \<rightharpoonup> 'v) \<Rightarrow> 'k \<Rightarrow> 'v \<Rightarrow> 'v" where
  "get_or d k dflt = (case d k of Some v \<Rightarrow> v | None \<Rightarrow> dflt)"

section \<open>Header resolution (scripts/run\_niap.py)\<close>

definition REQUIRED_HEADERS :: "string list" where
  "REQUIRED_HEADERS =
     [''VID'', ''Vendor'', ''Product'', ''CCTL'', ''Certification Date'', ''Status'',
      ''Conformance Claims'', ''Assurance Maintenance Date'', ''Maintenance Update'', ''Scheme'']"

definition ALIASES :: "(string \<times> string) list" where
  "ALIASES =
     [(''vid'', ''VID''), (''vendor'', ''Vendor''), (''product'', ''Product''), (''cctl'', ''CCTL''),
      (''certification date'', ''Certification Date''), (''status'', ''Status''),
      (''conformance claims'', ''Conformance Claims''),
      (''assurance maintenance date'', ''Assurance Maintenance Date''),
      (''maintenance update'', ''Maintenance Update''), (''scheme'', ''Scheme'')]"

definition to_canonical :: "string \<Rightarrow> string option" where
  "to_canonical header = (let h = lower (norm header) in map_of ALIASES h)"


section \<open>What the scraper reads from the browser\<close>

text \<open>
  The browser is an external collaborator. A \<open>page\<close> is what the locators of the
  script return at one moment: the texts and attributes the script reads, per selector
  and in document order. A Playwright locator is lazy, so a grid found earlier is kept
  as the selector that found it and is read again from the current page.
\<close>

record cell =
  inner_text :: string
  anchors :: "string option list"  \<comment> \<open>the \<^verbatim>\<open>href\<close> of each \<^verbatim>\<open>a\<close> inside the cell\<close>

record grid_row =
  gridcells :: "cell list"  \<comment> \<open>\<^verbatim>\<open>row.get_by_role("gridcell")\<close>\<close>
  tds :: "cell list"  \<comment> \<open>\<^verbatim>\<open>row.locator("td")\<close>\<close>

record grid_el =
  thead_ths :: "string list"  \<comment> \<open>\<^verbatim>\<open>grid.locator("thead tr th")\<close>, inner texts\<close>
  tbody_trs :: "grid_row list"  \<comment> \<open>\<^verbatim>\<open>grid.locator("tbody tr")\<close>\<close>

datatype grid_sel = RoleGrid | MuiDataGridRoot | MuiDataGridMain | TableTag

record button =
  is_enabled :: bool
  class_attr :: "string option"

record page =
  vid_header_visible :: bool  \<comment> \<open>a column header named VID becomes visible in time\<close>
  grids :: "grid_sel \<Rightarrow> grid_el list"  \<comment> \<open>the matches of each grid selector\<close>
  columnheaders :: "string list"  \<comment> \<open>\<^verbatim>\<open>page.get_by_role("columnheader")\<close>, inner texts\<close>
  role_rows :: "grid_row list"  \<comment> \<open>\<^verbatim>\<open>div[role='row']\<close> without a column header\<close>
  pager_captions :: "string list list"  \<comment> \<open>inner texts per caption selector\<close>
  next_buttons :: "button list list"  \<comment> \<open>matches per next-page selector\<close>

text \<open>\<^verbatim>\<open>_find_grid\<close>: the first selector with a match.\<close>

definition find_grid :: "page \<Rightarrow> grid_sel option" where
  "find_grid pg =
     List.find (\<lambda>sel. grids pg sel \<noteq> []) [RoleGrid, MuiDataGridRoot, MuiDataGridMain, TableTag]"

text \<open>\<^verbatim>\<open>loc.first\<close> of a grid selector on the current page, when it matches.\<close>

definition grid_first :: "page \<Rightarrow> grid_sel \<Rightarrow> grid_el option" where
  "grid_first pg sel = (case grids pg sel of [] \<Rightarrow> None | g # _ \<Rightarrow> Some g)"

definition header_cells :: "page \<Rightarrow> grid_sel \<Rightarrow> string list" where
  "header_cells pg grid =
     (if columnheaders pg \<noteq> [] then columnheaders pg
      else (case grid_first pg grid of None \<Rightarrow> [] | Some g \<Rightarrow> thead_ths g))"

text \<open>
  \<^verbatim>\<open>_get_headers\<close>. The dictionary \<open>index_to_name\<close> is an association list in
  insertion order; the loop index is fresh at each insertion.
\<close>

definition header_step :: "(nat \<times> string) list \<Rightarrow> nat \<times> string \<Rightarrow> (nat \<times> string) list" where
  "header_step index_to_name ih =
     (let txt = norm (snd ih) in
      case to_canonical txt of
        None \<Rightarrow> index_to_name
      | Some canon \<Rightarrow> if canon \<noteq> [] then index_to_name @ [(fst ih, canon)] else index_to_name)"

definition resolve_headers :: "string list \<Rightarrow> (nat \<times> string) list" where
  "resolve_headers texts = foldl header_step [] (enumerate 0 texts)"

definition get_headers :: "page \<Rightarrow> grid_sel \<Rightarrow> (nat \<times> string) list" where
  "get_headers pg grid = resolve_headers (header_cells pg grid)"

definition rows_locator :: "page \<Rightarrow> grid_sel \<Rightarrow> grid_row list" where
  "rows_locator pg grid =
     (if role_rows pg \<noteq> [] then role_rows pg
      else (case grid_first pg grid of None \<Rightarrow> [] | Some g \<Rightarrow> tbody_trs g))"

definition row_cells :: "grid_row \<Rightarrow> cell list" where
  "row_cells r = (if gridcells r \<noteq> [] then gridcells r else tds r)"

section \<open>Row extraction and the dedup key\<close>

record Row =
  VID :: string
  Vendor :: string
  Product :: string
  CCTL :: string
  Certification_Date :: string
  Status :: string
  Conformance_Claims :: string
  Assurance_Maintenance_Date :: string
  Maintenance_Update :: string
  Scheme :: string
  Product_URL :: string

text \<open>One pass of the cell loop: the pair is \<open>(values, product_url)\<close>.\<close>

definition cell_step :: "(nat \<times> string) list \<Rightarrow> (string \<rightharpoonup> string) \<times> string \<Rightarrow> nat \<times> cell
    \<Rightarrow> (string \<rightharpoonup> string) \<times> string" where
  "cell_step index_to_name acc ic =
     (let key = map_of index_to_name (fst ic);
          val = norm (inner_text (snd ic));
          product_url =
            (if key = Some ''Product'' then
               (case anchors (snd ic) of
                  [] \<Rightarrow> snd acc
                | href # _ \<Rightarrow> (case href of None \<Rightarrow> [] | Some u \<Rightarrow> u))
             else snd acc)
      in (case key of
            None \<Rightarrow> (fst acc, product_url)
          | Some k \<Rightarrow> if k \<noteq> [] then ((fst acc)(k \<mapsto> val), product_url) else (fst acc, product_url)))"

definition read_cells :: "(nat \<times> string) list \<Rightarrow> cell list \<Rightarrow> (string \<rightharpoonup> string) \<times> string" where
  "read_cells index_to_name cells = foldl (cell_step index_to_name) (Map.empty, []) (enumerate 0 cells)"

definition dedup_key :: "(string \<rightharpoonup> string) \<Rightarrow> string \<Rightarrow> string" where
  "dedup_key values product_url =
     (let product_key = get_or values ''Product'' [];
          key_norm = strip (lower product_key)
      in if key_norm \<noteq> [] then key_norm
         else if product_url \<noteq> [] then ''url::'' @ lower (strip product_url)
         else (let all_text = join '' | '' (map (\<lambda>k. get_or values k []) REQUIRED_HEADERS)
               in ''row::'' @ lower (norm all_text)))"

definition make_row :: "(string \<rightharpoonup> string) \<Rightarrow> string \<Rightarrow> Row" where
  "make_row values product_url =
     \<lparr>VID = get_or values ''VID'' [],
      Vendor = get_or values ''Vendor'' [],
      Product = get_or values ''Product'' [],
      CCTL = get_or values ''CCTL'' [],
      Certification_Date = get_or values ''Certification Date'' [],
      Status = get_or values ''Status'' [],
      Conformance_Claims = get_or values ''Conformance Claims'' [],
      Assurance_Maintenance_Date = get_or values ''Assurance Maintenance Date'' [],
      Maintenance_Update = get_or values ''Maintenance Update'' [],
      Scheme = get_or values ''Scheme'' [],
      Product_URL = product_url\<rparr>"

text \<open>
  One pass of the row loop of \<^verbatim>\<open>_extract_rows\<close>: the pair is the batch \<open>rows\<close> built so
  far and the set \<open>seen_products\<close>, which the caller shares.
\<close>

definition row_step :: "(nat \<times> string) list \<Rightarrow> Row list \<times> string fset \<Rightarrow> grid_row
    \<Rightarrow> Row list \<times> string fset" where
  "row_step index_to_name acc r =
     (let cells = row_cells r in
      if cells = [] then acc
      else (let vu = read_cells index_to_name cells;
                key_norm = dedup_key (fst vu) (snd vu)
            in if key_norm |\<in>| snd acc then acc
               else (fst acc @ [make_row (fst vu) (snd vu)], finsert key_norm (snd acc))))"

definition extract_rows :: "page \<Rightarrow> grid_sel \<Rightarrow> (nat \<times> string) list \<Rightarrow> string fset
    \<Rightarrow> Row list \<times> string fset" where
  "extract_rows pg grid index_to_name seen_products =
     foldl (row_step index_to_name) ([], seen_products) (rows_locator pg grid)"


text \<open>
  For the statements below: the dedup key the row loop computes for a row, and the keys
  of the rows of one pass that have cells.
\<close>

definition row_key :: "(nat \<times> string) list \<Rightarrow> grid_row \<Rightarrow> string" where
  "row_key index_to_name r =
     (let vu = read_cells index_to_name (row_cells r) in dedup_key (fst vu) (snd vu))"

definition row_keys :: "(nat \<times> string) list \<Rightarrow> grid_row list \<Rightarrow> string fset" where
  "row_keys index_to_name rs =
     fset_of_list (map (row_key index_to_name) (filter (\<lambda>r. row_cells r \<noteq> []) rs))"

section \<open>The pager\<close>

definition digit_val :: "char \<Rightarrow> nat" where
  "digit_val c = (case map_of (zip ''0123456789'' [0..<10]) c of Some d \<Rightarrow> d | None \<Rightarrow> 0)"

text \<open>\<^verbatim>\<open>int(m.group(1))\<close> on a run of decimal digits.\<close>

definition int_of_digits :: "string \<Rightarrow> nat" where
  "int_of_digits ds = foldl (\<lambda>n c. 10 * n + digit_val c) 0 ds"

text \<open>
  The pattern \<^verbatim>\<open>\bof\s+(\d{1,7})\b\<close> tried at one position of the text: \<open>prev\<close> is the
  character before it. Both quantifiers are greedy and giving back a character never
  helps (the next one would be white space, or a digit at a word boundary), so the
  match is decided by the maximal runs.
\<close>

definition match_of_here :: "char option \<Rightarrow> string \<Rightarrow> nat option" where
  "match_of_here prev s =
     (if (case prev of None \<Rightarrow> True | Some p \<Rightarrow> \<not> is_word p) \<and> take 2 s = ''of'' then
        (let r = drop 2 s;
             ws = takeWhile is_space r;
             ds = takeWhile is_digit (dropWhile is_space r);
             rest = dropWhile is_digit (dropWhile is_space r)
         in if ws \<noteq> [] \<and> 1 \<le> length ds \<and> length ds \<le> 7
               \<and> (case rest of [] \<Rightarrow> True | c # _ \<Rightarrow> \<not> is_word c)
            then Some (int_of_digits ds) else None)
      else None)"

text \<open>\<^verbatim>\<open>re.search\<close>: the leftmost position where the pattern matches.\<close>

fun search_of :: "char option \<Rightarrow> string \<Rightarrow> nat option" where
  "search_of prev [] = None"
| "search_of prev (c # cs) =
     (case match_of_here prev (c # cs) of
        Some n \<Rightarrow> Some n
      | None \<Rightarrow> search_of (Some c) cs)"

fun first_total :: "string list \<Rightarrow> nat option" where
  "first_total [] = None"
| "first_total (t # ts) =
     (case search_of None (strip t) of Some n \<Rightarrow> Some n | None \<Rightarrow> first_total ts)"

text \<open>\<^verbatim>\<open>_get_total_from_pager\<close>: at most three elements per selector are read.\<close>

definition get_total_from_pager :: "page \<Rightarrow> nat option" where
  "get_total_from_pager pg = first_total (concat (map (take 3) (pager_captions pg)))"

text \<open>\<^verbatim>\<open>_pager_next_btn\<close>: the first element of the first selector that matches.\<close>

fun first_match :: "'a list list \<Rightarrow> 'a option" where
  "first_match [] = None"
| "first_match ([] # ls) = first_match ls"
| "first_match ((x # xs) # ls) = Some x"

definition pager_next_btn :: "page \<Rightarrow> button option" where
  "pager_next_btn pg = first_match (next_buttons pg)"

text \<open>\<^verbatim>\<open>sub in s\<close>\<close>

definition contains :: "string \<Rightarrow> string \<Rightarrow> bool" where
  "contains sub s = list_ex (\<lambda>i. take (length sub) (drop i s) = sub) [0..<Suc (length s)]"

definition is_disabled :: "button option \<Rightarrow> bool" where
  "is_disabled btn =
     (case btn of
        None \<Rightarrow> True
      | Some b \<Rightarrow> \<not> is_enabled b
          \<or> contains ''Mui-disabled'' (case class_attr b of None \<Rightarrow> [] | Some c \<Rightarrow> c))"

section \<open>The pagination driver\<close>

text \<open>
  The browser session: \<open>'w\<close> is its state, \<open>view\<close> what the script can read from it, the
  other fields what an action of the script does to it. The banner dismissal and
  \<^verbatim>\<open>_set_page_size_to_max\<close> are best effort, return nothing the run uses, and are
  kept as one action each. Of the failures of the browser itself only the wait for the
  VID column header is a branch of the model.
\<close>

record 'w browser =
  view :: "'w \<Rightarrow> page"
  click_next :: "'w \<Rightarrow> 'w"  \<comment> \<open>\<^verbatim>\<open>next_btn.click()\<close>\<close>
  scroll_to_end :: "nat \<Rightarrow> 'w \<Rightarrow> 'w"  \<comment> \<open>one scroll to the bottom, then a pause (ms)\<close>
  wait_for_timeout :: "nat \<Rightarrow> 'w \<Rightarrow> 'w"
  dismiss_banners :: "'w \<Rightarrow> 'w"
  set_page_size_to_max :: "'w \<Rightarrow> 'w"

text \<open>
  The state the closure \<^verbatim>\<open>collect_current\<close> shares with \<^verbatim>\<open>run\<close>. The field \<open>clicks\<close>
  is not in the script: it counts the calls of \<^verbatim>\<open>next_btn.click()\<close>.
\<close>

record 'w driver =
  world :: 'w
  grid :: grid_sel
  all_rows :: "Row list"
  seen_products :: "string fset"
  clicks :: nat

definition scroll_grid_to_end :: "'w browser \<Rightarrow> nat \<Rightarrow> nat \<Rightarrow> 'w \<Rightarrow> 'w" where
  "scroll_grid_to_end env pause_ms repeats w = (scroll_to_end env pause_ms ^^ repeats) w"

definition collect_current :: "'w browser \<Rightarrow> (nat \<times> string) list \<Rightarrow> 'w driver \<Rightarrow> 'w driver" where
  "collect_current env header_map st =
     (let w = scroll_grid_to_end env 120 10 (world st);
          grid' = (case find_grid (view env w) of Some g \<Rightarrow> g | None \<Rightarrow> grid st);
          batch = extract_rows (view env w) grid' header_map (seen_products st)
      in st\<lparr>world := w, grid := grid', all_rows := all_rows st @ fst batch,
             seen_products := snd batch\<rparr>)"

text \<open>The settle burst after a click.\<close>

definition settle :: "'w browser \<Rightarrow> 'w \<Rightarrow> 'w" where
  "settle env w = ((\<lambda>w. scroll_grid_to_end env 40 1 (wait_for_timeout env 120 w)) ^^ 10) w"

text \<open>
  One pass of the loop body up to the new \<^verbatim>\<open>next_btn\<close>: the click, the settle burst and
  the collection pass.
\<close>

definition advance :: "'w browser \<Rightarrow> (nat \<times> string) list \<Rightarrow> 'w driver \<Rightarrow> 'w driver" where
  "advance env header_map st =
     collect_current env header_map
       (st\<lparr>world := settle env (click_next env (world st)), clicks := clicks st + 1\<rparr>)"

text \<open>
  The \<^verbatim>\<open>while\<close> loop of \<^verbatim>\<open>run\<close>; \<open>safety\<close> is the counter before the pass,
  \<open>total_count\<close> the variable \<^verbatim>\<open>total\<close>.
\<close>

function paginate :: "'w browser \<Rightarrow> (nat \<times> string) list \<Rightarrow> nat \<Rightarrow> nat \<Rightarrow> 'w driver \<Rightarrow> 'w driver" where
  "paginate env header_map total_count safety st =
     (if is_disabled (pager_next_btn (view env (world st))) then st
      else if safety + 1 > 100 then st
      else (let st' = advance env header_map st
            in if total_count \<noteq> 0 \<and> total_count \<le> fcard (seen_products st') then st'
               else paginate env header_map total_count (safety + 1) st'))"
  by pat_completeness auto
termination
  by (relation "measure (\<lambda>(env, header_map, total_count, safety, st). 101 - safety)") auto

declare paginate.simps [simp del]

datatype error = PlaywrightTimeout | RuntimeError string

text \<open>
  \<^verbatim>\<open>run\<close> from the loaded page \<open>w0\<close> to the first collection pass: the header map, the
  variable \<^verbatim>\<open>total\<close> and the state before the loop, or the exception raised.
\<close>

definition first_pass :: "'w browser \<Rightarrow> 'w \<Rightarrow> error + ((nat \<times> string) list \<times> nat \<times> 'w driver)" where
  "first_pass env w0 =
     (if \<not> vid_header_visible (view env w0) then Inl PlaywrightTimeout
      else (let w1 = dismiss_banners env w0 in
        case find_grid (view env w1) of
          None \<Rightarrow> Inl (RuntimeError ''Could not locate the products grid/table.'')
        | Some g \<Rightarrow>
            (let header_map = get_headers (view env w1) g in
             if header_map = [] then
               Inl (RuntimeError ''Could not read column headers; grid structure may have changed.'')
             else (let w2 = set_page_size_to_max env w1;
                       w3 = scroll_grid_to_end env 120 10 w2;
                       total_count = (case get_total_from_pager (view env w3) of
                                        None \<Rightarrow> 0 | Some n \<Rightarrow> n)
                   in Inr (header_map, total_count,
                        collect_current env header_map
                          \<lparr>world = w3, grid = g, all_rows = [], seen_products = {||},
                           clicks = 0\<rparr>)))))"

text \<open>The browser part of \<^verbatim>\<open>run\<close>, to the state after the last collection pass.\<close>

definition scrape :: "'w browser \<Rightarrow> 'w \<Rightarrow> error + 'w driver" where
  "scrape env w0 =
     (case first_pass env w0 of
        Inl e \<Rightarrow> Inl e
      | Inr (header_map, total_count, st0) \<Rightarrow>
          Inr (collect_current env header_map (paginate env header_map total_count 0 st0)))"

section \<open>The two output files\<close>

text \<open>
  A dictionary of \<^verbatim>\<open>to_dict\<close> is its items in order, a value being a \<^verbatim>\<open>str\<close> or
  \<^verbatim>\<open>None\<close>. A CSV file is its rows of cells, a JSONL file its objects; the text
  encoding of both is left to the writers.
\<close>

datatype json = JNull | JString string

record outputs =
  csv_file :: "string list list option"
  jsonl_file :: "(string \<times> json) list list option"

definition to_dict :: "Row \<Rightarrow> (string \<times> string option) list" where
  "to_dict r =
     [(''vid'', Some (VID r)), (''vendor'', Some (Vendor r)), (''product'', Some (Product r)),
      (''cctl'', Some (CCTL r)), (''certification_date'', Some (Certification_Date r)),
      (''status'', Some (Status r)), (''conformance_claims'', Some (Conformance_Claims r)),
      (''assurance_maintenance_date'', Some (Assurance_Maintenance_Date r)),
      (''maintenance_update'', Some (Maintenance_Update r)), (''scheme'', Some (Scheme r)),
      (''product_url'', Some (Product_URL r))]"

text \<open>\<^verbatim>\<open>Row()\<close>\<close>

definition Row_default :: Row where
  "Row_default = \<lparr>VID = [], Vendor = [], Product = [], CCTL = [], Certification_Date = [],
     Status = [], Conformance_Claims = [], Assurance_Maintenance_Date = [],
     Maintenance_Update = [], Scheme = [], Product_URL = []\<rparr>"

text \<open>
  \<^verbatim>\<open>csv.DictWriter.writerow\<close>: one cell per field name, the empty string for a missing
  key and for \<^verbatim>\<open>None\<close>.
\<close>

definition csv_writerow :: "string list \<Rightarrow> (string \<times> string option) list \<Rightarrow> string list" where
  "csv_writerow fieldnames d =
     map (\<lambda>k. case map_of d k of None \<Rightarrow> [] | Some None \<Rightarrow> [] | Some (Some v) \<Rightarrow> v) fieldnames"

text \<open>\<^verbatim>\<open>json.dumps\<close> of such a dictionary.\<close>

definition json_dumps :: "(string \<times> string option) list \<Rightarrow> (string \<times> json) list" where
  "json_dumps d = map (\<lambda>kv. (fst kv, case snd kv of None \<Rightarrow> JNull | Some v \<Rightarrow> JString v)) d"

definition write_csv :: "string list \<Rightarrow> (string \<times> string option) list list \<Rightarrow> string list list" where
  "write_csv fieldnames dicts = fieldnames # map (csv_writerow fieldnames) dicts"

definition write_outputs :: "Row list \<Rightarrow> outputs \<Rightarrow> outputs" where
  "write_outputs rows out =
     out\<lparr>csv_file := Some (write_csv (map fst (to_dict Row_default)) (map to_dict rows)),
         jsonl_file := Some (map (\<lambda>r. json_dumps (to_dict r)) rows)\<rparr>"

text \<open>
  \<^verbatim>\<open>run\<close>: the files before the run, the files after it and what the run returns. The
  two paths are taken to name different files in directories that can be created.
\<close>

definition run :: "'w browser \<Rightarrow> 'w \<Rightarrow> outputs \<Rightarrow> outputs \<times> (error + nat)" where
  "run env w0 out =
     (case scrape env w0 of
        Inl e \<Rightarrow> (out, Inl e)
      | Inr st \<Rightarrow> (write_outputs (all_rows st) out, Inr (length (all_rows st))))"


section \<open>The card scraper (cc\_scraper/niap\_scraper.py, cc\_scraper/utils.py)\<close>

definition FIELD_ALIASES :: "(string \<times> string list) list" where
  "FIELD_ALIASES =
     [(''VID'', [''VID'', ''Validation ID'', ''VPL ID'', ''Validation Identifier'']),
      (''Vendor'', [''Vendor'', ''Manufacturer'']),
      (''Product'', [''Product'', ''Product Name'', ''TOE'']),
      (''CCTL'', [''CCTL'', ''CC Testing Lab'', ''Lab'', ''Testing Laboratory'']),
      (''Certification Date'', [''Certification Date'', ''Check-in Date'', ''Validation Date'', ''Date'']),
      (''Status'', [''Status'', ''State'']),
      (''Conformance Claims'', [''Conformance Claims'', ''PP'', ''Protection Profile'', ''Conformance'']),
      (''Assurance Maintenance Date'', [''Assurance Maintenance Date'', ''AMD'', ''Maintenance Date'']),
      (''Maintenance Update'', [''Maintenance Update'', ''Maintenance'', ''Assurance Maintenance'']),
      (''Scheme'', [''Scheme'', ''Country''])]"

definition normalize_label :: "string \<Rightarrow> string" where
  "normalize_label label =
     (let label = strip label in
      case List.find (\<lambda>ca. list_ex (\<lambda>a. lower a = lower label) (snd ca)) FIELD_ALIASES of
        Some ca \<Rightarrow> fst ca
      | None \<Rightarrow> label)"

definition CANON_FIELDS :: "string list" where
  "CANON_FIELDS =
     [''VID'', ''Vendor'', ''Product'', ''CCTL'', ''Certification Date'', ''Status'',
      ''Conformance Claims'', ''Assurance Maintenance Date'', ''Maintenance Update'', ''Scheme'']"

text \<open>The dataclass \<^verbatim>\<open>Record\<close>: every field is a \<^verbatim>\<open>str\<close> or \<^verbatim>\<open>None\<close>.\<close>

record Record =
  Record_VID :: "string option"
  Record_Vendor :: "string option"
  Record_Product :: "string option"
  Record_CCTL :: "string option"
  Record_Certification_Date :: "string option"
  Record_Status :: "string option"
  Record_Conformance_Claims :: "string option"
  Record_Assurance_Maintenance_Date :: "string option"
  Record_Maintenance_Update :: "string option"
  Record_Scheme :: "string option"
  Record_Product_URL :: "string option"

text \<open>\<^verbatim>\<open>Record()\<close>\<close>

definition Record_default :: Record where
  "Record_default = \<lparr>Record_VID = None, Record_Vendor = None, Record_Product = None,
     Record_CCTL = None, Record_Certification_Date = None, Record_Status = None,
     Record_Conformance_Claims = None, Record_Assurance_Maintenance_Date = None,
     Record_Maintenance_Update = None, Record_Scheme = None, Record_Product_URL = None\<rparr>"

definition Record_to_dict :: "Record \<Rightarrow> (string \<times> string option) list" where
  "Record_to_dict r =
     [(''vid'', Record_VID r), (''vendor'', Record_Vendor r), (''product'', Record_Product r),
      (''cctl'', Record_CCTL r), (''certification_date'', Record_Certification_Date r),
      (''status'', Record_Status r), (''conformance_claims'', Record_Conformance_Claims r),
      (''assurance_maintenance_date'', Record_Assurance_Maintenance_Date r),
      (''maintenance_update'', Record_Maintenance_Update r), (''scheme'', Record_Scheme r),
      (''product_url'', Record_Product_URL r)]"

text \<open>\<^verbatim>\<open>setattr(rec, key, v)\<close> for the attribute names the loop of \<^verbatim>\<open>scrape_page\<close> builds.\<close>

definition setattr_Record :: "Record \<Rightarrow> string \<Rightarrow> string \<Rightarrow> Record" where
  "setattr_Record r key v =
     (if key = ''VID'' then r\<lparr>Record_VID := Some v\<rparr>
      else if key = ''Vendor'' then r\<lparr>Record_Vendor := Some v\<rparr>
      else if key = ''Product'' then r\<lparr>Record_Product := Some v\<rparr>
      else if key = ''CCTL'' then r\<lparr>Record_CCTL := Some v\<rparr>
      else if key = ''Certification_Date'' then r\<lparr>Record_Certification_Date := Some v\<rparr>
      else if key = ''Status'' then r\<lparr>Record_Status := Some v\<rparr>
      else if key = ''Conformance_Claims'' then r\<lparr>Record_Conformance_Claims := Some v\<rparr>
      else if key = ''Assurance_Maintenance_Date'' then r\<lparr>Record_Assurance_Maintenance_Date := Some v\<rparr>
      else if key = ''Maintenance_Update'' then r\<lparr>Record_Maintenance_Update := Some v\<rparr>
      else if key = ''Scheme'' then r\<lparr>Record_Scheme := Some v\<rparr>
      else r)"

text \<open>The value \<open>v\<close> the loop finds for the canonical field \<open>f\<close> in the dictionary
  \<open>data\<close> of a card (the variable \<^verbatim>\<open>fields\<close>).\<close>

definition card_value :: "(string \<rightharpoonup> string) \<Rightarrow> string \<Rightarrow> string option" where
  "card_value data f =
     (case data f of
        Some v \<Rightarrow> Some v
      | None \<Rightarrow>
          (case List.find (\<lambda>alias. data alias \<noteq> None)
                  (case map_of FIELD_ALIASES f of None \<Rightarrow> [] | Some as \<Rightarrow> as) of
             None \<Rightarrow> None
           | Some alias \<Rightarrow> data alias))"

definition card_field_step :: "(string \<rightharpoonup> string) \<Rightarrow> Record \<Rightarrow> string \<Rightarrow> Record" where
  "card_field_step data r f =
     (case card_value data f of
        None \<Rightarrow> r
      | Some v \<Rightarrow>
          if v \<noteq> [] then setattr_Record r (map (\<lambda>c. if c = CHR '' '' then CHR ''_'' else c) f) v
          else r)"

text \<open>
  The record \<^verbatim>\<open>scrape_page\<close> appends for one card, from the fields of the card and the
  \<^verbatim>\<open>href\<close> of each link found in it.
\<close>

definition card_record :: "(string \<rightharpoonup> string) \<Rightarrow> string option list \<Rightarrow> Record" where
  "card_record data links =
     (let r = foldl (card_field_step data) Record_default CANON_FIELDS in
      case links of [] \<Rightarrow> r | href # _ \<Rightarrow> r\<lparr>Record_Product_URL := href\<rparr>)"

definition Record_write_outputs :: "Record list \<Rightarrow> outputs \<Rightarrow> outputs" where
  "Record_write_outputs results out =
     out\<lparr>csv_file := Some (write_csv (map fst (Record_to_dict Record_default))
                              (map Record_to_dict results)),
         jsonl_file := Some (map (\<lambda>r. json_dumps (Record_to_dict r)) results)\<rparr>"


section \<open>Concrete pages and browsers for the examples\<close>

definition text_cell :: "string \<Rightarrow> cell" where
  "text_cell t = \<lparr>inner_text = t, anchors = []\<rparr>"


definition role_row :: "cell list \<Rightarrow> grid_row" where
  "role_row cs = \<lparr>gridcells = cs, tds = []\<rparr>"

definition enabled_button :: button where
  "enabled_button = \<lparr>is_enabled = True, class_attr = Some ''MuiButtonBase-root''\<rparr>"

definition disabled_button :: button where
  "disabled_button = \<lparr>is_enabled = True, class_attr = Some ''MuiButtonBase-root Mui-disabled''\<rparr>"

definition role_grid_only :: "grid_sel \<Rightarrow> grid_el list" where
  "role_grid_only sel = (if sel = RoleGrid then [\<lparr>thead_ths = [], tbody_trs = []\<rparr>] else [])"

definition no_grid :: "grid_sel \<Rightarrow> grid_el list" where
  "no_grid sel = []"

text \<open>A grid page: its header texts, its rows, its pager caption and its next button.\<close>

definition grid_page :: "string list \<Rightarrow> grid_row list \<Rightarrow> string list \<Rightarrow> button list \<Rightarrow> page" where
  "grid_page hs rs caption btn =
     \<lparr>vid_header_visible = True, grids = role_grid_only, columnheaders = hs, role_rows = rs,
      pager_captions = [caption], next_buttons = [btn]\<rparr>"

definition product_a_page :: "string list \<Rightarrow> page" where
  "product_a_page caption =
     grid_page [''VID'', ''Product''] [role_row [text_cell ''10'', text_cell ''Alpha'']]
       caption [enabled_button]"

definition product_b_page :: "button \<Rightarrow> page" where
  "product_b_page btn =
     grid_page [''VID'', ''Product'']
       [role_row [text_cell ''10'', text_cell ''Alpha''], role_row [text_cell ''11'', text_cell ''Beta'']]
       [''2-2 of 2''] [btn]"

text \<open>A browser that shows the same page whatever is done; its state counts the clicks.\<close>

definition static_browser :: "page \<Rightarrow> nat browser" where
  "static_browser pg =
     \<lparr>view = (\<lambda>w. pg), click_next = Suc, scroll_to_end = (\<lambda>ms w. w),
      wait_for_timeout = (\<lambda>ms w. w), dismiss_banners = (\<lambda>w. w),
      set_page_size_to_max = (\<lambda>w. w)\<rparr>"

text \<open>A browser with a first page and, after a click, a second one.\<close>

definition two_page_browser :: "page \<Rightarrow> page \<Rightarrow> nat browser" where
  "two_page_browser p q =
     \<lparr>view = (\<lambda>w. if w = 0 then p else q), click_next = Suc, scroll_to_end = (\<lambda>ms w. w),
      wait_for_timeout = (\<lambda>ms w. w), dismiss_banners = (\<lambda>w. w),
      set_page_size_to_max = (\<lambda>w. w)\<rparr>"

definition gridless_page :: page where
  "gridless_page = (product_a_page [])\<lparr>grids := no_grid\<rparr>"

definition unknown_headers_page :: page where
  "unknown_headers_page =
     grid_page [''Product Name'', ''Country'']
       [role_row [text_cell ''Alpha'', text_cell ''US'']] [] [enabled_button]"

definition no_outputs :: outputs where
  "no_outputs = \<lparr>csv_file = None, jsonl_file = None\<rparr>"

definition alpha_row :: Row where
  "alpha_row = Row_default\<lparr>VID := ''10'', Product := ''Alpha''\<rparr>"

definition beta_row :: Row where
  "beta_row = Row_default\<lparr>VID := ''11'', Product := ''Beta''\<rparr>"


definition start_state :: "nat driver" where
  "start_state = \<lparr>world = 0, grid = RoleGrid, all_rows = [], seen_products = {||}, clicks = 0\<rparr>"

definition vid_product :: "(nat \<times> string) list" where
  "vid_product = [(0, ''VID''), (1, ''Product'')]"

text \<open>The driver state after the pass that found the product Alpha.\<close>

definition alpha_state :: "nat driver" where
  "alpha_state = \<lparr>world = 0, grid = RoleGrid, all_rows = [alpha_row],
     seen_products = {|''alpha''|}, clicks = 0\<rparr>"





text \<open>The fields of a card that shows its vendor only.\<close>

definition vendor_only_card :: "string \<rightharpoonup> string" where
  "vendor_only_card = [''Vendor'' \<mapsto> ''Acme'']"

text \<open>The driver state after one click and the pass that found the product Beta too.\<close>

definition beta_state :: "nat driver" where
  "beta_state = \<lparr>world = 1, grid = RoleGrid, all_rows = [alpha_row, beta_row],
     seen_products = {|''alpha'', ''beta''|}, clicks = 1\<rparr>"

section \<open>The row loop\<close>

lemma row_step_skip: "row_cells r = [] \<Longrightarrow> row_step hm acc r = acc"
  by (simp add: row_step_def)

lemma row_step_seen_key:
  "row_cells r \<noteq> [] \<Longrightarrow> row_key hm r |\<in>| snd acc \<Longrightarrow> row_step hm acc r = acc"
  by (simp add: row_step_def row_key_def Let_def)

lemma row_step_new_key:
  "row_cells r \<noteq> [] \<Longrightarrow> row_key hm r |\<notin>| snd acc \<Longrightarrow>
   row_step hm acc r =
     (fst acc @ [make_row (fst (read_cells hm (row_cells r))) (snd (read_cells hm (row_cells r)))],
      finsert (row_key hm r) (snd acc))"
  by (simp add: row_step_def row_key_def Let_def)

lemma row_keys_Nil: "row_keys hm [] = {||}"
  by (simp add: row_keys_def)

lemma row_keys_Cons:
  "row_keys hm (r # rs) =
     (if row_cells r = [] then row_keys hm rs else finsert (row_key hm r) (row_keys hm rs))"
  by (simp add: row_keys_def)

lemma row_step_seen: "snd (row_step hm acc r) = snd acc |\<union>| row_keys hm [r]"
  by (cases "row_cells r = []"; cases "row_key hm r |\<in>| snd acc")
     (auto simp: row_step_skip row_step_seen_key row_step_new_key row_keys_Cons row_keys_Nil)

lemma foldl_row_step_seen:
  "snd (foldl (row_step hm) acc rs) = snd acc |\<union>| row_keys hm rs"
proof (induction rs arbitrary: acc)
  case Nil
  show ?case by (simp add: row_keys_Nil)
next
  case (Cons r rs)
  have "snd (foldl (row_step hm) (row_step hm acc r) rs)
      = snd (row_step hm acc r) |\<union>| row_keys hm rs"
    by (rule Cons.IH)
  then show ?case
    by (auto simp: row_step_seen row_keys_Cons row_keys_Nil)
qed

lemma row_step_count:
  "length (fst (row_step hm acc r)) + fcard (snd acc)
     = length (fst acc) + fcard (snd (row_step hm acc r))"
  by (cases "row_cells r = []"; cases "row_key hm r |\<in>| snd acc")
     (simp_all add: row_step_skip row_step_seen_key row_step_new_key fcard_finsert_disjoint)

lemma foldl_row_step_count:
  "length (fst (foldl (row_step hm) acc rs)) + fcard (snd acc) =
   length (fst acc) + fcard (snd (foldl (row_step hm) acc rs))"
proof (induction rs arbitrary: acc)
  case Nil
  show ?case by simp
next
  case (Cons r rs)
  have "length (fst (foldl (row_step hm) (row_step hm acc r) rs)) + fcard (snd (row_step hm acc r)) =
        length (fst (row_step hm acc r)) + fcard (snd (foldl (row_step hm) (row_step hm acc r) rs))"
    by (rule Cons.IH)
  with row_step_count [of hm acc r] show ?case by simp
qed

lemma foldl_row_step_fixed:
  "row_keys hm rs |\<subseteq>| snd acc \<Longrightarrow> foldl (row_step hm) acc rs = acc"
proof (induction rs arbitrary: acc)
  case Nil
  show ?case by simp
next
  case (Cons r rs)
  from Cons.prems have step: "row_step hm acc r = acc"
    by (cases "row_cells r = []") (auto simp: row_keys_Cons row_step_skip row_step_seen_key)
  from Cons.prems have "row_keys hm rs |\<subseteq>| snd acc"
    by (auto simp: row_keys_Cons split: if_splits)
  with Cons.IH step show ?case by simp
qed

lemma extract_rows_seen:
  "snd (extract_rows pg g hm seen) = seen |\<union>| row_keys hm (rows_locator pg g)"
  by (simp add: extract_rows_def foldl_row_step_seen)

lemma extract_rows_count:
  "length (fst (extract_rows pg g hm seen)) + fcard seen = fcard (snd (extract_rows pg g hm seen))"
  using foldl_row_step_count [of hm "([], seen)" "rows_locator pg g"]
  by (simp add: extract_rows_def)

lemma extract_rows_again:
  "row_keys hm (rows_locator pg g) |\<subseteq>| seen \<Longrightarrow> extract_rows pg g hm seen = ([], seen)"
  by (simp add: extract_rows_def foldl_row_step_fixed)

section \<open>The collection pass and the loop\<close>

lemma collect_current_world [simp]:
  "world (collect_current env hm st) = scroll_grid_to_end env 120 10 (world st)"
  by (simp add: collect_current_def Let_def)

lemma collect_current_clicks [simp]: "clicks (collect_current env hm st) = clicks st"
  by (simp add: collect_current_def Let_def)

lemma collect_current_seen:
  "seen_products (collect_current env hm st) =
     seen_products st |\<union>|
       row_keys hm (rows_locator (view env (world (collect_current env hm st)))
                      (grid (collect_current env hm st)))"
  by (simp add: collect_current_def Let_def extract_rows_seen)

lemma collect_current_mono: "seen_products st |\<subseteq>| seen_products (collect_current env hm st)"
  by (simp add: collect_current_def Let_def extract_rows_seen)

lemma collect_current_count:
  "length (all_rows (collect_current env hm st)) + fcard (seen_products st) =
   length (all_rows st) + fcard (seen_products (collect_current env hm st))"
  using extract_rows_count [of "view env (scroll_grid_to_end env 120 10 (world st))" _ hm "seen_products st"]
  by (simp add: collect_current_def Let_def)

lemma collect_current_bound:
  assumes "\<forall>w g. row_keys hm (rows_locator (view env w) g) |\<subseteq>| K"
    and "seen_products st |\<subseteq>| K"
  shows "seen_products (collect_current env hm st) |\<subseteq>| K"
  using assms by (subst collect_current_seen) auto

lemma advance_clicks [simp]: "clicks (advance env hm st) = Suc (clicks st)"
  by (simp add: advance_def)

lemma advance_mono: "seen_products st |\<subseteq>| seen_products (advance env hm st)"
  using collect_current_mono
    [of "st\<lparr>world := settle env (click_next env (world st)), clicks := clicks st + 1\<rparr>" env hm]
  by (simp add: advance_def)

lemma advance_count:
  "length (all_rows (advance env hm st)) + fcard (seen_products st) =
   length (all_rows st) + fcard (seen_products (advance env hm st))"
  using collect_current_count
    [of env hm "st\<lparr>world := settle env (click_next env (world st)), clicks := clicks st + 1\<rparr>"]
  by (simp add: advance_def)

lemma advance_bound:
  assumes "\<forall>w g. row_keys hm (rows_locator (view env w) g) |\<subseteq>| K"
    and "seen_products st |\<subseteq>| K"
  shows "seen_products (advance env hm st) |\<subseteq>| K"
  using assms by (simp add: advance_def collect_current_bound)

lemma paginate_disabled:
  "is_disabled (pager_next_btn (view env (world st))) \<Longrightarrow> paginate env hm n safety st = st"
  by (subst paginate.simps) simp

lemma paginate_cap: "100 \<le> safety \<Longrightarrow> paginate env hm n safety st = st"
  by (subst paginate.simps) simp

lemma paginate_early:
  "\<not> is_disabled (pager_next_btn (view env (world st))) \<Longrightarrow> safety < 100 \<Longrightarrow>
   n \<noteq> 0 \<Longrightarrow> n \<le> fcard (seen_products (advance env hm st)) \<Longrightarrow>
   paginate env hm n safety st = advance env hm st"
  by (subst paginate.simps) (simp add: Let_def)

lemma paginate_continue:
  "\<not> is_disabled (pager_next_btn (view env (world st))) \<Longrightarrow> safety < 100 \<Longrightarrow>
   \<not> (n \<noteq> 0 \<and> n \<le> fcard (seen_products (advance env hm st))) \<Longrightarrow>
   paginate env hm n safety st = paginate env hm n (Suc safety) (advance env hm st)"
  by (subst paginate.simps) (auto simp: Let_def)

lemma paginate_mono: "seen_products st |\<subseteq>| seen_products (paginate env hm n safety st)"
proof (induction env hm n safety st rule: paginate.induct)
  case (1 env hm n safety st)
  show ?case
  proof (cases "is_disabled (pager_next_btn (view env (world st))) \<or> 100 \<le> safety")
    case True
    then show ?thesis by (auto simp: paginate_disabled paginate_cap)
  next
    case False
    then have a: "\<not> is_disabled (pager_next_btn (view env (world st)))" and b: "safety < 100"
      by auto
    show ?thesis
    proof (cases "n \<noteq> 0 \<and> n \<le> fcard (seen_products (advance env hm st))")
      case True
      with a b show ?thesis by (simp add: paginate_early advance_mono)
    next
      case False
      with a b have "seen_products (advance env hm st)
          |\<subseteq>| seen_products (paginate env hm n (safety + 1) (advance env hm st))"
        by (intro "1.IH") auto
      with advance_mono [of st env hm] show ?thesis
        using a b False by (auto simp: paginate_continue)
    qed
  qed
qed

lemma paginate_count:
  "length (all_rows (paginate env hm n safety st)) + fcard (seen_products st) =
   length (all_rows st) + fcard (seen_products (paginate env hm n safety st))"
proof (induction env hm n safety st rule: paginate.induct)
  case (1 env hm n safety st)
  show ?case
  proof (cases "is_disabled (pager_next_btn (view env (world st))) \<or> 100 \<le> safety")
    case True
    then show ?thesis by (auto simp: paginate_disabled paginate_cap)
  next
    case False
    then have a: "\<not> is_disabled (pager_next_btn (view env (world st)))" and b: "safety < 100"
      by auto
    show ?thesis
    proof (cases "n \<noteq> 0 \<and> n \<le> fcard (seen_products (advance env hm st))")
      case True
      with a b show ?thesis by (simp add: paginate_early advance_count)
    next
      case False
      with a b have "length (all_rows (paginate env hm n (safety + 1) (advance env hm st)))
            + fcard (seen_products (advance env hm st)) =
          length (all_rows (advance env hm st))
            + fcard (seen_products (paginate env hm n (safety + 1) (advance env hm st)))"
        by (intro "1.IH") auto
      with advance_count [of env hm st] show ?thesis
        using a b False by (simp add: paginate_continue)
    qed
  qed
qed

lemma paginate_clicks_cap:
  assumes en: "\<And>w. \<not> is_disabled (pager_next_btn (view env w))"
    and no: "n = 0 \<or> (fcard K < n \<and> (\<forall>w g. row_keys hm (rows_locator (view env w) g) |\<subseteq>| K))"
  shows "n = 0 \<or> seen_products st |\<subseteq>| K \<Longrightarrow> safety \<le> 100 \<Longrightarrow>
    clicks (paginate env hm n safety st) = clicks st + (100 - safety)"
proof (induction "100 - safety" arbitrary: safety st)
  case 0
  then show ?case by (simp add: paginate_cap)
next
  case (Suc k)
  from Suc.hyps(2) have lt: "safety < 100" by simp
  have stay: "n = 0 \<or> seen_products (advance env hm st) |\<subseteq>| K"
  proof (cases "n = 0")
    case True
    then show ?thesis by simp
  next
    case False
    with no Suc.prems(1) have "seen_products (advance env hm st) |\<subseteq>| K"
      by (intro advance_bound) auto
    then show ?thesis by simp
  qed
  have "\<not> (n \<noteq> 0 \<and> n \<le> fcard (seen_products (advance env hm st)))"
  proof (cases "n = 0")
    case True
    then show ?thesis by simp
  next
    case False
    with stay no have "fcard (seen_products (advance env hm st)) \<le> fcard K" and "fcard K < n"
      by (auto intro: fcard_mono)
    then show ?thesis by simp
  qed
  with en lt have "paginate env hm n safety st = paginate env hm n (Suc safety) (advance env hm st)"
    by (simp add: paginate_continue)
  moreover have "clicks (paginate env hm n (Suc safety) (advance env hm st)) =
      clicks (advance env hm st) + (100 - Suc safety)"
    using Suc.hyps(2) lt stay by (intro Suc.hyps(1)) auto
  ultimately show ?case using lt by simp
qed


lemma collect_current_rows:
  "all_rows (collect_current env hm st) =
     all_rows st @ fst (extract_rows (view env (world (collect_current env hm st)))
                          (grid (collect_current env hm st)) hm (seen_products st))"
  by (simp add: collect_current_def Let_def)

lemma collect_current_seen_extract:
  "seen_products (collect_current env hm st) =
     snd (extract_rows (view env (world (collect_current env hm st)))
            (grid (collect_current env hm st)) hm (seen_products st))"
  by (simp add: collect_current_def Let_def)

section \<open>The run up to the first pass\<close>

lemma first_pass_Inr:
  assumes "first_pass env w0 = Inr (hm, n, st0)"
  shows "\<exists>w g. st0 = collect_current env hm
            \<lparr>world = w, grid = g, all_rows = [], seen_products = {||}, clicks = 0\<rparr>"
    and "n = (case get_total_from_pager (view env (scroll_grid_to_end env 120 10
                 (set_page_size_to_max env (dismiss_banners env w0)))) of None \<Rightarrow> 0 | Some k \<Rightarrow> k)"
    and "hm \<noteq> []"
  using assms
  by (auto simp: first_pass_def Let_def split: if_splits option.splits)

lemma first_pass_clicks: "first_pass env w0 = Inr (hm, n, st0) \<Longrightarrow> clicks st0 = 0"
  by (auto dest!: first_pass_Inr(1))

lemma first_pass_count:
  "first_pass env w0 = Inr (hm, n, st0) \<Longrightarrow> length (all_rows st0) = fcard (seen_products st0)"
proof -
  assume "first_pass env w0 = Inr (hm, n, st0)"
  from first_pass_Inr(1) [OF this] obtain w g where st0: "st0 = collect_current env hm
      \<lparr>world = w, grid = g, all_rows = [], seen_products = {||}, clicks = 0\<rparr>"
    by auto
  show ?thesis
    unfolding st0
    using collect_current_count [of env hm "\<lparr>world = w, grid = g, all_rows = [], seen_products = {||}, clicks = 0\<rparr>"]
    by (simp add: fcard_fempty)
qed


lemma scrape_Inr:
  "first_pass env w0 = Inr (hm, n, st0) \<Longrightarrow>
   scrape env w0 = Inr (collect_current env hm (paginate env hm n 0 st0))"
  by (simp add: scrape_def)

lemma run_writes_on_success:
  "scrape env w0 = Inr st \<Longrightarrow>
   csv_file (fst (run env w0 out)) \<noteq> None \<and> jsonl_file (fst (run env w0 out)) \<noteq> None
   \<and> snd (run env w0 out) = Inr (length (all_rows st))"
  by (simp add: run_def write_outputs_def)

section \<open>The cell loop\<close>

lemma read_cells_snoc:
  "read_cells hm (cells @ [c]) = cell_step hm (read_cells hm cells) (length cells, c)"
  by (simp add: read_cells_def enumerate_append_eq)

lemma cell_step_values:
  "fst (cell_step hm acc (i, c)) =
     (case map_of hm i of
        None \<Rightarrow> fst acc
      | Some k \<Rightarrow> if k \<noteq> [] then (fst acc)(k \<mapsto> norm (inner_text c)) else fst acc)"
  by (simp add: cell_step_def Let_def split: option.splits)

lemma read_cells_last_wins:
  "j < length cells \<Longrightarrow> map_of hm j = Some f \<Longrightarrow> f \<noteq> [] \<Longrightarrow>
   \<forall>k. j < k \<and> k < length cells \<longrightarrow> map_of hm k \<noteq> Some f \<Longrightarrow>
   fst (read_cells hm cells) f = Some (norm (inner_text (cells ! j)))"
proof (induction cells rule: rev_induct)
  case Nil
  then show ?case by simp
next
  case (snoc c cells)
  show ?case
  proof (cases "j = length cells")
    case True
    with snoc.prems show ?thesis
      by (simp add: read_cells_snoc cell_step_values)
  next
    case False
    with snoc.prems have j: "j < length cells" by simp
    from snoc.prems j have last: "map_of hm (length cells) \<noteq> Some f" by simp
    from snoc.prems have "\<forall>k. j < k \<and> k < length cells \<longrightarrow> map_of hm k \<noteq> Some f" by simp
    with snoc.IH j snoc.prems have "fst (read_cells hm cells) f = Some (norm (inner_text (cells ! j)))"
      by simp
    with last j show ?thesis
      by (auto simp: read_cells_snoc cell_step_values nth_append split: option.splits)
  qed
qed


section \<open>Facts about the example pages\<close>

lemma static_view [simp]: "view (static_browser pg) w = pg"
  by (simp add: static_browser_def)

lemma product_a_rows:
  "rows_locator (product_a_page c) g = [role_row [text_cell ''10'', text_cell ''Alpha'']]"
  by (simp add: rows_locator_def product_a_page_def grid_page_def)


lemma product_a_enabled: "\<not> is_disabled (pager_next_btn (product_a_page c))"
proof -
  have "pager_next_btn (product_a_page c) = Some enabled_button"
    by (simp add: pager_next_btn_def product_a_page_def grid_page_def)
  moreover have "\<not> is_disabled (Some enabled_button)" by code_simp
  ultimately show ?thesis by simp
qed

section \<open>Header resolution\<close>

lemma aliases_table: "ALIASES = map (\<lambda>c. (lower c, c)) REQUIRED_HEADERS"
  by code_simp

lemma aliases_distinct: "distinct (map fst ALIASES)"
  by code_simp

lemma to_canonical_iff:
  "to_canonical h = Some c \<longleftrightarrow> c \<in> set REQUIRED_HEADERS \<and> lower (norm h) = lower c"
proof -
  have "map_of ALIASES (lower (norm h)) = Some c \<longleftrightarrow> (lower (norm h), c) \<in> set ALIASES"
    using aliases_distinct by (rule map_of_eq_Some_iff)
  also have "\<dots> \<longleftrightarrow> c \<in> set REQUIRED_HEADERS \<and> lower (norm h) = lower c"
    by (auto simp: aliases_table)
  finally show ?thesis by (simp add: to_canonical_def)
qed

text \<open>
  Claim C1, as stated: the header texts VID, Vendor, Product Name, CCTL, Country resolve
  to the map 0: VID, 1: Vendor, 2: Product, 3: CCTL, 4: Scheme. The table \<open>ALIASES\<close> of
  the header resolver has no entry for "product name" or "country", so the claim fails.
\<close>

theorem header_resolution_counterexample:
  "resolve_headers [''VID'', ''Vendor'', ''Product Name'', ''CCTL'', ''Country'']
     \<noteq> [(0, ''VID''), (1, ''Vendor''), (2, ''Product''), (3, ''CCTL''), (4, ''Scheme'')]
   \<and> to_canonical ''Product Name'' \<noteq> Some ''Product''
   \<and> to_canonical ''Country'' \<noteq> Some ''Scheme''"
  by code_simp

text \<open>
  Claim C1, amended: the same header texts resolve to exactly 0: VID, 1: Vendor, 3: CCTL;
  a header resolves to a canonical field exactly when its white-space-normalized text
  equals the name of that field up to letter case (an exact match, not a substring
  match). The variants Product Name and Country are accepted by \<open>normalize_label\<close> of
  the card scraper only, which the header resolver does not call.
\<close>

theorem header_resolution_exact:
  "resolve_headers [''VID'', ''Vendor'', ''Product Name'', ''CCTL'', ''Country'']
     = [(0, ''VID''), (1, ''Vendor''), (3, ''CCTL'')]
   \<and> (to_canonical h = Some c \<longleftrightarrow> c \<in> set REQUIRED_HEADERS \<and> lower (norm h) = lower c)
   \<and> to_canonical ''  PRODUCT  '' = Some ''Product''
   \<and> to_canonical ''Products'' = None
   \<and> normalize_label ''Product Name'' = ''Product''
   \<and> normalize_label ''Country'' = ''Scheme''"
proof -
  have "resolve_headers [''VID'', ''Vendor'', ''Product Name'', ''CCTL'', ''Country'']
     = [(0, ''VID''), (1, ''Vendor''), (3, ''CCTL'')]"
    by code_simp
  moreover have "to_canonical ''  PRODUCT  '' = Some ''Product''" by code_simp
  moreover have "to_canonical ''Products'' = None" by code_simp
  moreover have "normalize_label ''Product Name'' = ''Product''" by code_simp
  moreover have "normalize_label ''Country'' = ''Scheme''" by code_simp
  ultimately show ?thesis using to_canonical_iff [of h c] by simp
qed

section \<open>Early exit on the total count\<close>

text \<open>
  Claim C2, as stated: once the dedup set holds the parsed total, no further Next click
  happens; in particular none when the first collection pass already yields that many
  keys. The page below shows one product, the caption "1-1 of 1" and an enabled next
  button: the first pass already holds the one key, and the run still clicks Next once,
  because the loop compares the set with the total only after a click and its
  collection pass. With the caption "0-0 of 0" the total 0 is parsed and counts as no
  total: the loop clicks Next 100 times.
\<close>

theorem early_exit_first_pass_counterexample:
  "get_total_from_pager (product_a_page [''1-1 of 1'']) = Some 1
   \<and> first_pass (static_browser (product_a_page [''1-1 of 1''])) 0 = Inr (vid_product, 1, alpha_state)
   \<and> fcard (seen_products alpha_state) = 1
   \<and> \<not> is_disabled (pager_next_btn (product_a_page [''1-1 of 1'']))
   \<and> scrape (static_browser (product_a_page [''1-1 of 1''])) 0
       = Inr (alpha_state\<lparr>world := 1, clicks := 1\<rparr>)
   \<and> clicks (alpha_state\<lparr>world := 1, clicks := 1\<rparr>) \<noteq> 0
   \<and> get_total_from_pager (product_a_page [''0-0 of 0'']) = Some 0
   \<and> first_pass (static_browser (product_a_page [''0-0 of 0''])) 0 = Inr (vid_product, 0, alpha_state)
   \<and> clicks (paginate (static_browser (product_a_page [''0-0 of 0''])) vid_product 0 0 alpha_state)
       = 100"
proof -
  have one: "get_total_from_pager (product_a_page [''1-1 of 1'']) = Some 1
   \<and> first_pass (static_browser (product_a_page [''1-1 of 1''])) 0 = Inr (vid_product, 1, alpha_state)
   \<and> fcard (seen_products alpha_state) = 1
   \<and> \<not> is_disabled (pager_next_btn (product_a_page [''1-1 of 1'']))
   \<and> scrape (static_browser (product_a_page [''1-1 of 1''])) 0
       = Inr (alpha_state\<lparr>world := 1, clicks := 1\<rparr>)
   \<and> clicks (alpha_state\<lparr>world := 1, clicks := 1\<rparr>) \<noteq> 0"
    by code_simp
  have zero: "get_total_from_pager (product_a_page [''0-0 of 0'']) = Some 0
   \<and> first_pass (static_browser (product_a_page [''0-0 of 0''])) 0 = Inr (vid_product, 0, alpha_state)"
    by code_simp
  have "clicks (paginate (static_browser (product_a_page [''0-0 of 0''])) vid_product 0 0 alpha_state)
      = clicks alpha_state + (100 - 0)"
    by (rule paginate_clicks_cap [where K = "{||}"]) (simp_all add: product_a_enabled)
  moreover have "clicks alpha_state = 0" by code_simp
  ultimately show ?thesis using one zero by simp
qed

text \<open>
  Claim C2, amended: when a total \<open>n > 0\<close> was parsed from the pager caption, a pass of
  the loop that clicks Next and collects, and then finds at least \<open>n\<close> keys in the dedup
  set, ends the loop there, whatever the next button shows afterwards. When the first
  collection pass already holds \<open>n\<close> keys, the run clicks Next exactly once if the next
  button is enabled, and not at all if it is missing or disabled.
\<close>

theorem early_exit_after_advance:
  assumes fp: "first_pass env w0 = Inr (hm, n, st0)" and pos: "n \<noteq> 0"
  shows "get_total_from_pager (view env (scroll_grid_to_end env 120 10
             (set_page_size_to_max env (dismiss_banners env w0)))) = Some n
     \<and> (\<not> is_disabled (pager_next_btn (view env (world st))) \<and> safety < 100
          \<and> n \<le> fcard (seen_products (advance env hm st))
        \<longrightarrow> paginate env hm n safety st = advance env hm st)
     \<and> (n \<le> fcard (seen_products st0) \<longrightarrow>
          (\<exists>st'. scrape env w0 = Inr st' \<and>
             clicks st' = (if is_disabled (pager_next_btn (view env (world st0))) then 0 else 1)))"
proof -
  have total: "get_total_from_pager (view env (scroll_grid_to_end env 120 10
             (set_page_size_to_max env (dismiss_banners env w0)))) = Some n"
    using first_pass_Inr(2) [OF fp] pos by (simp split: option.splits)
  have pass: "paginate env hm n safety st = advance env hm st"
    if "\<not> is_disabled (pager_next_btn (view env (world st)))" "safety < 100"
      "n \<le> fcard (seen_products (advance env hm st))"
    using that pos by (simp add: paginate_early)
  have first: "clicks (paginate env hm n 0 st0)
      = (if is_disabled (pager_next_btn (view env (world st0))) then 0 else 1)"
    if full: "n \<le> fcard (seen_products st0)"
  proof (cases "is_disabled (pager_next_btn (view env (world st0)))")
    case True
    then show ?thesis using fp by (simp add: paginate_disabled first_pass_clicks)
  next
    case False
    have "fcard (seen_products st0) \<le> fcard (seen_products (advance env hm st0))"
      by (rule fcard_mono) (rule advance_mono)
    with full have "n \<le> fcard (seen_products (advance env hm st0))" by simp
    with False pos have "paginate env hm n 0 st0 = advance env hm st0"
      by (simp add: paginate_early)
    then show ?thesis using False fp by (simp add: first_pass_clicks)
  qed
  show ?thesis using total pass first fp by (simp add: scrape_Inr)
qed

text \<open>
  The amended claim C2 on two browsers: one whose second page completes the total of
  two while its next button stays enabled, and the one-product page above.
\<close>

theorem early_exit_after_advance_witness:
  "first_pass (two_page_browser (product_a_page [''1-1 of 2'']) (product_b_page enabled_button)) 0
       = Inr (vid_product, 2, alpha_state)
   \<and> \<not> is_disabled (pager_next_btn
         (view (two_page_browser (product_a_page [''1-1 of 2'']) (product_b_page enabled_button))
            (world alpha_state)))
   \<and> 2 \<le> fcard (seen_products
         (advance (two_page_browser (product_a_page [''1-1 of 2'']) (product_b_page enabled_button))
            vid_product alpha_state))
   \<and> \<not> is_disabled (pager_next_btn
         (view (two_page_browser (product_a_page [''1-1 of 2'']) (product_b_page enabled_button))
            (world (advance (two_page_browser (product_a_page [''1-1 of 2'']) (product_b_page enabled_button))
               vid_product alpha_state))))
   \<and> paginate (two_page_browser (product_a_page [''1-1 of 2'']) (product_b_page enabled_button))
         vid_product 2 0 alpha_state
       = advance (two_page_browser (product_a_page [''1-1 of 2'']) (product_b_page enabled_button))
           vid_product alpha_state
   \<and> first_pass (static_browser (product_a_page [''1-1 of 1''])) 0 = Inr (vid_product, 1, alpha_state)
   \<and> 1 \<le> fcard (seen_products alpha_state)
   \<and> (\<exists>st'. scrape (static_browser (product_a_page [''1-1 of 1''])) 0 = Inr st' \<and> clicks st' = 1)"
proof -
  let ?two = "two_page_browser (product_a_page [''1-1 of 2'']) (product_b_page enabled_button)"
  let ?one = "static_browser (product_a_page [''1-1 of 1''])"
  have fp2: "first_pass ?two 0 = Inr (vid_product, 2, alpha_state)" by code_simp
  have en2: "\<not> is_disabled (pager_next_btn (view ?two (world alpha_state)))" by code_simp
  have full2: "2 \<le> fcard (seen_products (advance ?two vid_product alpha_state))" by code_simp
  have still: "\<not> is_disabled (pager_next_btn
      (view ?two (world (advance ?two vid_product alpha_state))))" by code_simp
  have fp1: "first_pass ?one 0 = Inr (vid_product, 1, alpha_state)" by code_simp
  have full1: "1 \<le> fcard (seen_products alpha_state)" by code_simp
  have en1: "\<not> is_disabled (pager_next_btn (view ?one (world alpha_state)))"
    by (simp add: product_a_enabled)
  from early_exit_after_advance [OF fp2, of alpha_state 0] en2 full2
  have a: "paginate ?two vid_product 2 0 alpha_state = advance ?two vid_product alpha_state"
    by simp
  from early_exit_after_advance [OF fp1, of alpha_state 0] full1 en1
  have b: "\<exists>st'. scrape ?one 0 = Inr st' \<and> clicks st' = 1"
    by simp
  from fp2 en2 full2 still a fp1 full1 b show ?thesis by blast
qed

section \<open>The dedup key\<close>



section \<open>The safety cap\<close>



section \<open>Fatal conditions\<close>

text \<open>
  Claim C5: when no grid selector matches, or the header row resolves to no canonical
  field, \<open>run\<close> raises and leaves both output files as they were; when the VID header
  was visible, the exception is the \<open>RuntimeError\<close> of the failed check.
\<close>

theorem fatal_before_output:
  assumes "find_grid (view env (dismiss_banners env w0)) = None
     \<or> (\<exists>g. find_grid (view env (dismiss_banners env w0)) = Some g
           \<and> get_headers (view env (dismiss_banners env w0)) g = [])"
  shows "(\<exists>e. run env w0 out = (out, Inl e))
     \<and> csv_file (fst (run env w0 out)) = csv_file out
     \<and> jsonl_file (fst (run env w0 out)) = jsonl_file out
     \<and> (vid_header_visible (view env w0) \<longrightarrow>
          snd (run env w0 out) = Inl (RuntimeError
            (if find_grid (view env (dismiss_banners env w0)) = None
             then ''Could not locate the products grid/table.''
             else ''Could not read column headers; grid structure may have changed.'')))"
  using assms
  by (auto simp: run_def scrape_def first_pass_def Let_def split: option.splits)

text \<open>
  Claim C5 on a page without a grid and on a page whose headers are Product Name and
  Country.
\<close>

theorem fatal_before_output_witness:
  "find_grid (view (static_browser gridless_page)
       (dismiss_banners (static_browser gridless_page) 0)) = None
   \<and> run (static_browser gridless_page) 0 no_outputs
       = (no_outputs, Inl (RuntimeError ''Could not locate the products grid/table.''))
   \<and> find_grid (view (static_browser unknown_headers_page)
       (dismiss_banners (static_browser unknown_headers_page) 0)) = Some RoleGrid
   \<and> get_headers (view (static_browser unknown_headers_page)
       (dismiss_banners (static_browser unknown_headers_page) 0)) RoleGrid = []
   \<and> run (static_browser unknown_headers_page) 0 no_outputs
       = (no_outputs,
          Inl (RuntimeError ''Could not read column headers; grid structure may have changed.''))"
proof -
  let ?g = "static_browser gridless_page"
  let ?u = "static_browser unknown_headers_page"
  have g: "find_grid (view ?g (dismiss_banners ?g 0)) = None" by code_simp
  have u1: "find_grid (view ?u (dismiss_banners ?u 0)) = Some RoleGrid" by code_simp
  have u2: "get_headers (view ?u (dismiss_banners ?u 0)) RoleGrid = []" by code_simp
  have vg: "vid_header_visible (view ?g 0)" and vu: "vid_header_visible (view ?u 0)"
    by code_simp+
  have "run ?g 0 no_outputs = (no_outputs, Inl (RuntimeError ''Could not locate the products grid/table.''))"
    using fatal_before_output [of ?g 0 no_outputs] g vg by auto
  moreover have "run ?u 0 no_outputs = (no_outputs,
      Inl (RuntimeError ''Could not read column headers; grid structure may have changed.''))"
    using fatal_before_output [of ?u 0 no_outputs] u1 u2 vu by auto
  ultimately show ?thesis using g u1 u2 by blast
qed

section \<open>Strings in the outputs\<close>

text \<open>
  Claim C6, as stated: every field of every record in both outputs is a string, never
  null. The card scraper builds a \<open>Record\<close> whose fields start as \<open>None\<close>; for a card
  that shows its vendor only, the JSON line holds \<open>null\<close> for the ten other keys.
\<close>

theorem record_null_counterexample:
  "jsonl_file (Record_write_outputs [card_record vendor_only_card []] no_outputs) =
     Some [[(''vid'', JNull), (''vendor'', JString ''Acme''), (''product'', JNull),
            (''cctl'', JNull), (''certification_date'', JNull), (''status'', JNull),
            (''conformance_claims'', JNull), (''assurance_maintenance_date'', JNull),
            (''maintenance_update'', JNull), (''scheme'', JNull), (''product_url'', JNull)]]"
  by code_simp

text \<open>
  Claim C6, amended: a record of scripts/run\_niap.py (\<open>Row\<close>) has all eleven keys and
  a string for each in its CSV row and in its JSON object, the empty string for a field
  the row did not provide. A record of cc\_scraper/niap\_scraper.py (\<open>Record\<close>) has all
  eleven keys too, and a field that was not found is \<open>None\<close>: \<open>null\<close> in the JSON
  object, an empty cell in the CSV row.
\<close>

theorem row_outputs_never_null:
  "json_dumps (to_dict (make_row values url)) =
     [(''vid'', JString (get_or values ''VID'' [])), (''vendor'', JString (get_or values ''Vendor'' [])),
      (''product'', JString (get_or values ''Product'' [])), (''cctl'', JString (get_or values ''CCTL'' [])),
      (''certification_date'', JString (get_or values ''Certification Date'' [])),
      (''status'', JString (get_or values ''Status'' [])),
      (''conformance_claims'', JString (get_or values ''Conformance Claims'' [])),
      (''assurance_maintenance_date'', JString (get_or values ''Assurance Maintenance Date'' [])),
      (''maintenance_update'', JString (get_or values ''Maintenance Update'' [])),
      (''scheme'', JString (get_or values ''Scheme'' [])),
      (''product_url'', JString url)]
   \<and> csv_writerow (map fst (to_dict Row_default)) (to_dict (make_row values url)) =
     [get_or values ''VID'' [], get_or values ''Vendor'' [], get_or values ''Product'' [],
      get_or values ''CCTL'' [], get_or values ''Certification Date'' [], get_or values ''Status'' [],
      get_or values ''Conformance Claims'' [], get_or values ''Assurance Maintenance Date'' [],
      get_or values ''Maintenance Update'' [], get_or values ''Scheme'' [], url]
   \<and> get_or (values(k := None)) k [] = []
   \<and> list_all (\<lambda>kv. snd kv \<noteq> JNull) (json_dumps (to_dict r))
   \<and> map fst (json_dumps (to_dict r)) = map fst (to_dict Row_default)
   \<and> json_dumps (Record_to_dict rec) =
     [(''vid'', case Record_VID rec of None \<Rightarrow> JNull | Some s \<Rightarrow> JString s),
      (''vendor'', case Record_Vendor rec of None \<Rightarrow> JNull | Some s \<Rightarrow> JString s),
      (''product'', case Record_Product rec of None \<Rightarrow> JNull | Some s \<Rightarrow> JString s),
      (''cctl'', case Record_CCTL rec of None \<Rightarrow> JNull | Some s \<Rightarrow> JString s),
      (''certification_date'', case Record_Certification_Date rec of None \<Rightarrow> JNull | Some s \<Rightarrow> JString s),
      (''status'', case Record_Status rec of None \<Rightarrow> JNull | Some s \<Rightarrow> JString s),
      (''conformance_claims'', case Record_Conformance_Claims rec of None \<Rightarrow> JNull | Some s \<Rightarrow> JString s),
      (''assurance_maintenance_date'',
         case Record_Assurance_Maintenance_Date rec of None \<Rightarrow> JNull | Some s \<Rightarrow> JString s),
      (''maintenance_update'', case Record_Maintenance_Update rec of None \<Rightarrow> JNull | Some s \<Rightarrow> JString s),
      (''scheme'', case Record_Scheme rec of None \<Rightarrow> JNull | Some s \<Rightarrow> JString s),
      (''product_url'', case Record_Product_URL rec of None \<Rightarrow> JNull | Some s \<Rightarrow> JString s)]
   \<and> csv_writerow (map fst (Record_to_dict Record_default)) (Record_to_dict rec) =
     [case Record_VID rec of None \<Rightarrow> [] | Some s \<Rightarrow> s,
      case Record_Vendor rec of None \<Rightarrow> [] | Some s \<Rightarrow> s,
      case Record_Product rec of None \<Rightarrow> [] | Some s \<Rightarrow> s,
      case Record_CCTL rec of None \<Rightarrow> [] | Some s \<Rightarrow> s,
      case Record_Certification_Date rec of None \<Rightarrow> [] | Some s \<Rightarrow> s,
      case Record_Status rec of None \<Rightarrow> [] | Some s \<Rightarrow> s,
      case Record_Conformance_Claims rec of None \<Rightarrow> [] | Some s \<Rightarrow> s,
      case Record_Assurance_Maintenance_Date rec of None \<Rightarrow> [] | Some s \<Rightarrow> s,
      case Record_Maintenance_Update rec of None \<Rightarrow> [] | Some s \<Rightarrow> s,
      case Record_Scheme rec of None \<Rightarrow> [] | Some s \<Rightarrow> s,
      case Record_Product_URL rec of None \<Rightarrow> [] | Some s \<Rightarrow> s]"
proof -
  have a: "json_dumps (to_dict (make_row values url)) =
     [(''vid'', JString (get_or values ''VID'' [])), (''vendor'', JString (get_or values ''Vendor'' [])),
      (''product'', JString (get_or values ''Product'' [])), (''cctl'', JString (get_or values ''CCTL'' [])),
      (''certification_date'', JString (get_or values ''Certification Date'' [])),
      (''status'', JString (get_or values ''Status'' [])),
      (''conformance_claims'', JString (get_or values ''Conformance Claims'' [])),
      (''assurance_maintenance_date'', JString (get_or values ''Assurance Maintenance Date'' [])),
      (''maintenance_update'', JString (get_or values ''Maintenance Update'' [])),
      (''scheme'', JString (get_or values ''Scheme'' [])),
      (''product_url'', JString url)]"
    by (simp add: json_dumps_def to_dict_def make_row_def)
  have b: "csv_writerow (map fst (to_dict Row_default)) (to_dict (make_row values url)) =
     [get_or values ''VID'' [], get_or values ''Vendor'' [], get_or values ''Product'' [],
      get_or values ''CCTL'' [], get_or values ''Certification Date'' [], get_or values ''Status'' [],
      get_or values ''Conformance Claims'' [], get_or values ''Assurance Maintenance Date'' [],
      get_or values ''Maintenance Update'' [], get_or values ''Scheme'' [], url]"
    by (simp add: csv_writerow_def to_dict_def make_row_def Row_default_def)
  have c: "get_or (values(k := None)) k [] = []"
    by (simp add: get_or_def)
  have d: "list_all (\<lambda>kv. snd kv \<noteq> JNull) (json_dumps (to_dict r))"
    and e: "map fst (json_dumps (to_dict r)) = map fst (to_dict Row_default)"
    by (simp_all add: json_dumps_def to_dict_def)
  have f: "json_dumps (Record_to_dict rec) =
     [(''vid'', case Record_VID rec of None \<Rightarrow> JNull | Some s \<Rightarrow> JString s),
      (''vendor'', case Record_Vendor rec of None \<Rightarrow> JNull | Some s \<Rightarrow> JString s),
      (''product'', case Record_Product rec of None \<Rightarrow> JNull | Some s \<Rightarrow> JString s),
      (''cctl'', case Record_CCTL rec of None \<Rightarrow> JNull | Some s \<Rightarrow> JString s),
      (''certification_date'', case Record_Certification_Date rec of None \<Rightarrow> JNull | Some s \<Rightarrow> JString s),
      (''status'', case Record_Status rec of None \<Rightarrow> JNull | Some s \<Rightarrow> JString s),
      (''conformance_claims'', case Record_Conformance_Claims rec of None \<Rightarrow> JNull | Some s \<Rightarrow> JString s),
      (''assurance_maintenance_date'',
         case Record_Assurance_Maintenance_Date rec of None \<Rightarrow> JNull | Some s \<Rightarrow> JString s),
      (''maintenance_update'', case Record_Maintenance_Update rec of None \<Rightarrow> JNull | Some s \<Rightarrow> JString s),
      (''scheme'', case Record_Scheme rec of None \<Rightarrow> JNull | Some s \<Rightarrow> JString s),
      (''product_url'', case Record_Product_URL rec of None \<Rightarrow> JNull | Some s \<Rightarrow> JString s)]"
    by (simp add: json_dumps_def Record_to_dict_def)
  have g: "csv_writerow (map fst (Record_to_dict Record_default)) (Record_to_dict rec) =
     [case Record_VID rec of None \<Rightarrow> [] | Some s \<Rightarrow> s,
      case Record_Vendor rec of None \<Rightarrow> [] | Some s \<Rightarrow> s,
      case Record_Product rec of None \<Rightarrow> [] | Some s \<Rightarrow> s,
      case Record_CCTL rec of None \<Rightarrow> [] | Some s \<Rightarrow> s,
      case Record_Certification_Date rec of None \<Rightarrow> [] | Some s \<Rightarrow> s,
      case Record_Status rec of None \<Rightarrow> [] | Some s \<Rightarrow> s,
      case Record_Conformance_Claims rec of None \<Rightarrow> [] | Some s \<Rightarrow> s,
      case Record_Assurance_Maintenance_Date rec of None \<Rightarrow> [] | Some s \<Rightarrow> s,
      case Record_Maintenance_Update rec of None \<Rightarrow> [] | Some s \<Rightarrow> s,
      case Record_Scheme rec of None \<Rightarrow> [] | Some s \<Rightarrow> s,
      case Record_Product_URL rec of None \<Rightarrow> [] | Some s \<Rightarrow> s]"
    by (simp add: csv_writerow_def Record_to_dict_def Record_default_def)
  from a b c d e f g show ?thesis by blast
qed

section \<open>Duplicate headers\<close>

text \<open>
  Claim C7: when two columns \<open>i < j\<close> resolve to the same canonical field and the row
  has a cell in column \<open>j\<close>, and in no later column of that field, the value stored
  for the field is the normalized text of cell \<open>j\<close>; for the field Scheme it is the
  Scheme of the record.
\<close>

theorem duplicate_header_last_wins:
  assumes "map_of hm i = Some f" and "map_of hm j = Some f" and "i < j" and "j < length cells"
    and "f \<noteq> []"
    and "\<forall>k. j < k \<and> k < length cells \<longrightarrow> map_of hm k \<noteq> Some f"
  shows "fst (read_cells hm cells) f = Some (norm (inner_text (cells ! j)))
     \<and> (f = ''Scheme'' \<longrightarrow>
          Scheme (make_row (fst (read_cells hm cells)) (snd (read_cells hm cells)))
            = norm (inner_text (cells ! j)))"
proof -
  have "fst (read_cells hm cells) f = Some (norm (inner_text (cells ! j)))"
    using assms(4,2,5,6) by (rule read_cells_last_wins)
  then show ?thesis by (auto simp: make_row_def get_or_def)
qed

text \<open>
  Claim C7 on a row Acme, US, CA under the headers Vendor, Scheme, Scheme.
\<close>

theorem duplicate_header_last_wins_witness:
  "map_of [(0::nat, ''Vendor''), (1, ''Scheme''), (2, ''Scheme'')] 1 = Some ''Scheme''
   \<and> map_of [(0::nat, ''Vendor''), (1, ''Scheme''), (2, ''Scheme'')] 2 = Some ''Scheme''
   \<and> (1::nat) < 2
   \<and> 2 < length [text_cell ''Acme'', text_cell ''US'', text_cell ''CA'']
   \<and> fst (read_cells [(0::nat, ''Vendor''), (1, ''Scheme''), (2, ''Scheme'')]
            [text_cell ''Acme'', text_cell ''US'', text_cell ''CA'']) ''Scheme'' = Some ''CA''
   \<and> Scheme (make_row
        (fst (read_cells [(0::nat, ''Vendor''), (1, ''Scheme''), (2, ''Scheme'')]
            [text_cell ''Acme'', text_cell ''US'', text_cell ''CA'']))
        (snd (read_cells [(0::nat, ''Vendor''), (1, ''Scheme''), (2, ''Scheme'')]
            [text_cell ''Acme'', text_cell ''US'', text_cell ''CA'']))) = ''CA''"
proof -
  have n: "norm (inner_text ([text_cell ''Acme'', text_cell ''US'', text_cell ''CA''] ! 2)) = ''CA''"
    by code_simp
  show ?thesis
    using duplicate_header_last_wins [of "[(0::nat, ''Vendor''), (1, ''Scheme''), (2, ''Scheme'')]" 1
        "''Scheme''" 2 "[text_cell ''Acme'', text_cell ''US'', text_cell ''CA'']"]
    unfolding n by simp
qed

section \<open>Idempotence of collection\<close>

text \<open>
  Claim C8: a second collection pass that reads the same rendered rows as the first,
  from the state the first left, appends no record and adds no key; and extracting the
  same rows again with the dedup set of the first extraction gives an empty batch.
\<close>

theorem collect_idempotent:
  assumes st1: "st1 = collect_current env hm st" and st2: "st2 = collect_current env hm st1"
    and same: "rows_locator (view env (world st2)) (grid st2)
                 = rows_locator (view env (world st1)) (grid st1)"
  shows "all_rows st2 = all_rows st1 \<and> seen_products st2 = seen_products st1
     \<and> length (all_rows st2) = length (all_rows st1)
     \<and> extract_rows pg g hm (snd (extract_rows pg g hm seen)) = ([], snd (extract_rows pg g hm seen))"
proof -
  have "seen_products st1 = seen_products st |\<union>|
      row_keys hm (rows_locator (view env (world st1)) (grid st1))"
    unfolding st1 by (rule collect_current_seen)
  then have "row_keys hm (rows_locator (view env (world st1)) (grid st1)) |\<subseteq>| seen_products st1"
    by auto
  with same have "extract_rows (view env (world st2)) (grid st2) hm (seen_products st1)
      = ([], seen_products st1)"
    by (intro extract_rows_again) simp
  then have "all_rows st2 = all_rows st1" and "seen_products st2 = seen_products st1"
    using collect_current_rows [of env hm st1] collect_current_seen_extract [of env hm st1]
    by (simp_all add: st2 [symmetric])
  moreover have "extract_rows pg g hm (snd (extract_rows pg g hm seen))
      = ([], snd (extract_rows pg g hm seen))"
    by (intro extract_rows_again) (simp add: extract_rows_seen)
  ultimately show ?thesis by simp
qed

text \<open>
  Claim C8 on a browser that always shows the one-product page.
\<close>

theorem collect_idempotent_witness:
  "rows_locator
      (view (static_browser (product_a_page []))
        (world (collect_current (static_browser (product_a_page [])) vid_product
           (collect_current (static_browser (product_a_page [])) vid_product start_state))))
      (grid (collect_current (static_browser (product_a_page [])) vid_product
           (collect_current (static_browser (product_a_page [])) vid_product start_state)))
    = rows_locator
      (view (static_browser (product_a_page []))
        (world (collect_current (static_browser (product_a_page [])) vid_product start_state)))
      (grid (collect_current (static_browser (product_a_page [])) vid_product start_state))
   \<and> all_rows (collect_current (static_browser (product_a_page [])) vid_product start_state)
       = [alpha_row]
   \<and> all_rows (collect_current (static_browser (product_a_page [])) vid_product
        (collect_current (static_browser (product_a_page [])) vid_product start_state))
       = [alpha_row]
   \<and> seen_products (collect_current (static_browser (product_a_page [])) vid_product
        (collect_current (static_browser (product_a_page [])) vid_product start_state))
       = {|''alpha''|}
   \<and> extract_rows (product_a_page []) RoleGrid vid_product
        (snd (extract_rows (product_a_page []) RoleGrid vid_product {||}))
       = ([], {|''alpha''|})"
proof -
  let ?env = "static_browser (product_a_page [])"
  let ?st1 = "collect_current ?env vid_product start_state"
  let ?st2 = "collect_current ?env vid_product ?st1"
  have same: "rows_locator (view ?env (world ?st2)) (grid ?st2)
      = rows_locator (view ?env (world ?st1)) (grid ?st1)"
    by (simp add: product_a_rows)
  have r1: "all_rows ?st1 = [alpha_row]" and s1: "seen_products ?st1 = {|''alpha''|}"
    and e1: "snd (extract_rows (product_a_page []) RoleGrid vid_product {||}) = {|''alpha''|}"
    by code_simp+
  from collect_idempotent [OF refl refl same, of "product_a_page []" RoleGrid "{||}"] r1 s1 e1 same
  show ?thesis by simp
qed

section \<open>The two outputs agree\<close>

text \<open>
  Claim C9: for any list of records, the CSV file is the header row of the eleven keys
  and one row per record, the JSONL file one object per record in the same order, and
  row and object hold the same eleven strings under the same keys; a run that succeeds
  writes exactly these files for its accumulated records.
\<close>

theorem outputs_agree:
  "csv_file (write_outputs rows out) =
     Some ([''vid'', ''vendor'', ''product'', ''cctl'', ''certification_date'', ''status'',
            ''conformance_claims'', ''assurance_maintenance_date'', ''maintenance_update'',
            ''scheme'', ''product_url'']
           # map (\<lambda>r. [VID r, Vendor r, Product r, CCTL r, Certification_Date r, Status r,
                        Conformance_Claims r, Assurance_Maintenance_Date r, Maintenance_Update r,
                        Scheme r, Product_URL r]) rows)
   \<and> jsonl_file (write_outputs rows out) =
     Some (map (\<lambda>r. [(''vid'', JString (VID r)), (''vendor'', JString (Vendor r)),
                      (''product'', JString (Product r)), (''cctl'', JString (CCTL r)),
                      (''certification_date'', JString (Certification_Date r)),
                      (''status'', JString (Status r)),
                      (''conformance_claims'', JString (Conformance_Claims r)),
                      (''assurance_maintenance_date'', JString (Assurance_Maintenance_Date r)),
                      (''maintenance_update'', JString (Maintenance_Update r)),
                      (''scheme'', JString (Scheme r)),
                      (''product_url'', JString (Product_URL r))]) rows)
   \<and> fst (run env w0 out) =
       (case scrape env w0 of Inl e \<Rightarrow> out | Inr st \<Rightarrow> write_outputs (all_rows st) out)"
  by (simp add: write_outputs_def write_csv_def csv_writerow_def json_dumps_def to_dict_def
      Row_default_def run_def split: sum.splits)

section \<open>The dedup set and the record count\<close>

text \<open>
  Claim C10: a collection pass and the pagination loop only add keys to the dedup set,
  and each adds as many records as keys; so the number of records equals the number of
  keys after the first pass and at the end of the browser part, and \<open>run\<close> returns the
  number of keys in the final dedup set.
\<close>

theorem dedup_set_grows_with_rows:
  "seen_products st |\<subseteq>| seen_products (collect_current env hm st)
   \<and> length (all_rows (collect_current env hm st)) + fcard (seen_products st)
       = length (all_rows st) + fcard (seen_products (collect_current env hm st))
   \<and> seen_products st |\<subseteq>| seen_products (paginate env hm n safety st)
   \<and> length (all_rows (paginate env hm n safety st)) + fcard (seen_products st)
       = length (all_rows st) + fcard (seen_products (paginate env hm n safety st))
   \<and> (first_pass env w0 = Inr (hm', n', st0) \<longrightarrow> length (all_rows st0) = fcard (seen_products st0))
   \<and> (scrape env w0 = Inr st' \<longrightarrow>
        length (all_rows st') = fcard (seen_products st')
        \<and> snd (run env w0 out) = Inr (fcard (seen_products st')))"
proof -
  have fin: "length (all_rows st') = fcard (seen_products st')" if sc: "scrape env w0 = Inr st'"
  proof -
    from sc obtain hm n st0 where fp: "first_pass env w0 = Inr (hm, n, st0)"
      and st': "st' = collect_current env hm (paginate env hm n 0 st0)"
      by (auto simp: scrape_def split: sum.splits)
    have "length (all_rows st0) = fcard (seen_products st0)"
      using fp by (rule first_pass_count)
    with paginate_count [of env hm n 0 st0]
    have "length (all_rows (paginate env hm n 0 st0)) = fcard (seen_products (paginate env hm n 0 st0))"
      by simp
    with collect_current_count [of env hm "paginate env hm n 0 st0"]
    show ?thesis unfolding st' by simp
  qed
  have "snd (run env w0 out) = Inr (fcard (seen_products st'))" if sc: "scrape env w0 = Inr st'"
    using fin [OF sc] sc by (simp add: run_def)
  with fin show ?thesis
    by (simp add: collect_current_mono collect_current_count paginate_mono paginate_count
        first_pass_count)
qed

text \<open>
  Claim C10 on a browser with two pages, the second showing one more product.
\<close>

theorem dedup_set_grows_with_rows_witness:
  "first_pass (two_page_browser (product_a_page [''1-1 of 2'']) (product_b_page disabled_button)) 0
       = Inr (vid_product, 2, alpha_state)
   \<and> length (all_rows alpha_state) = fcard (seen_products alpha_state)
   \<and> scrape (two_page_browser (product_a_page [''1-1 of 2'']) (product_b_page disabled_button)) 0
       = Inr beta_state
   \<and> seen_products alpha_state |\<subseteq>| seen_products beta_state
   \<and> length (all_rows beta_state) = fcard (seen_products beta_state)
   \<and> snd (run (two_page_browser (product_a_page [''1-1 of 2'']) (product_b_page disabled_button))
          0 no_outputs) = Inr (fcard (seen_products beta_state))
   \<and> fcard (seen_products beta_state) = 2"
proof -
  let ?env = "two_page_browser (product_a_page [''1-1 of 2'']) (product_b_page disabled_button)"
  have fp: "first_pass ?env 0 = Inr (vid_product, 2, alpha_state)" by code_simp
  have sc: "scrape ?env 0 = Inr beta_state" by code_simp
  have sub: "seen_products alpha_state |\<subseteq>| seen_products beta_state" by code_simp
  have two: "fcard (seen_products beta_state) = 2" by code_simp
  from dedup_set_grows_with_rows [of _ ?env _ _ _ 0 vid_product 2 alpha_state beta_state no_outputs]
    fp sc sub two
  show ?thesis by simp
qed

end
